theory Spec2Isabelle
  imports Complex_Main "HOL-Library.Log_Nat" "HOL-Library.Multiset"
begin

section \<open>Data model (polls/models.py)\<close>

text \<open>
  The three tables of the application, one record per Django model. A foreign key is
  the key of the row it refers to; a table is the list of its rows in the order the
  database yields them. Timestamps are integers (microseconds since the epoch), user
  identities are the keys of the user table.

  Field names follow models.py, with a prefix where the bare name is taken:
  \<open>Poll.id\<close> is \<open>poll_id\<close>, \<open>PollOption.id\<close> is \<open>option_id\<close>,
  \<open>PollOption.text\<close> is \<open>option_text\<close>, \<open>Vote.option\<close> is \<open>vote_option\<close>,
  \<open>Poll.created_at\<close> is \<open>poll_created_at\<close>. A model instance that has not been
  saved yet has \<open>pk = None\<close>.
\<close>

record Poll =
  poll_id :: nat
  title :: string
  description :: string
  created_by :: nat
  poll_created_at :: int
  expires_at :: "int option"
  is_active :: bool
  allow_multiple_votes :: bool

record PollOption =
  option_id :: nat
  poll :: nat
  option_text :: string
  order :: nat

record Vote =
  pk :: "nat option"
  user :: "nat option"
  vote_option :: nat
  ip_address :: string
  user_agent :: string

record db =
  polls :: "Poll list"
  options :: "PollOption list"
  votes :: "Vote list"

text \<open>
  What a call can raise. \<open>ValidationError\<close> carries the reasons of the rejection
  (the message strings of the source are given with each function); the others are
  Python exceptions that no layer of the application catches.
\<close>

datatype reason =
    OptionNotFound
  | PollInactive
  | PollExpired
  | DuplicateIdentityVote
  | DuplicateAddressVote
  | RequestContextRequired
  | InvalidIPAddress
  | TitleTooShort
  | ExpiryNotInFuture
  | OptionTextTooShort
  | TooFewOptions
  | TooManyOptions
  | OptionsNotUnique

datatype error =
    ValidationError "reason list"
  | TypeError
  | DoesNotExist
  | IntegrityError

subsection \<open>Queries\<close>

definition get_option :: "db \<Rightarrow> nat \<Rightarrow> PollOption option" where
  "get_option d oid = find (\<lambda>opt. option_id opt = oid) (options d)"

definition get_poll :: "db \<Rightarrow> nat \<Rightarrow> Poll option" where
  "get_poll d pid = find (\<lambda>p. poll_id p = pid) (polls d)"

text \<open>The join \<open>option__poll\<close>: the poll key of the option a vote row refers to.\<close>

definition vote_poll :: "db \<Rightarrow> Vote \<Rightarrow> nat option" where
  "vote_poll d w = map_option poll (get_option d (vote_option w))"

text \<open>\<open>Vote.objects.filter(option__poll=p)\<close>\<close>

definition votes_of_poll :: "db \<Rightarrow> nat \<Rightarrow> Vote list" where
  "votes_of_poll d pid = filter (\<lambda>w. vote_poll d w = Some pid) (votes d)"

section \<open>Cache invalidation (polls/signals.py)\<close>

text \<open>
  The cache is a key-value store; \<open>cache.delete_many(keys)\<close> deletes the keys one
  after the other.
\<close>

type_synonym 'v cache = "string \<rightharpoonup> 'v"

definition delete_many :: "string list \<Rightarrow> 'v cache \<Rightarrow> 'v cache" where
  "delete_many keys c = fold (\<lambda>k m. m(k := None)) keys c"

text \<open>\<open>str(n)\<close> for a key \<open>n\<close>, as the f-string \<open>f'poll_results_{poll_id}'\<close> formats it.\<close>

definition digit :: "nat \<Rightarrow> char" where
  "digit n = ''0123456789'' ! n"

function str_nat :: "nat \<Rightarrow> string" where
  "str_nat n = (if n < 10 then [digit n] else str_nat (n div 10) @ [digit (n mod 10)])"
  by pat_completeness auto
termination
  by (relation "measure (\<lambda>n. n)") auto

declare str_nat.simps [simp del]

text \<open>
  The three receivers. \<open>instance.option.poll.id\<close> follows two foreign keys and raises
  \<open>DoesNotExist\<close> when a row is missing.
\<close>

definition invalidate_poll_cache :: "db \<Rightarrow> Vote \<Rightarrow> bool \<Rightarrow> 'v cache \<Rightarrow> error + 'v cache" where
  "invalidate_poll_cache d inst created c =
     (if created then
        (case get_option d (vote_option inst) of
           None \<Rightarrow> Inl DoesNotExist
         | Some opt \<Rightarrow>
            (case get_poll d (poll opt) of
               None \<Rightarrow> Inl DoesNotExist
             | Some p \<Rightarrow>
                 Inr (delete_many
                   [''poll_results_'' @ str_nat (poll_id p), ''poll_stats'', ''top_polls''] c)))
      else Inr c)"

definition invalidate_poll_list_cache :: "Poll \<Rightarrow> bool \<Rightarrow> 'v cache \<Rightarrow> 'v cache" where
  "invalidate_poll_list_cache inst created c =
     delete_many [''poll_list'', ''active_polls'', ''poll_stats''] c"

definition cleanup_poll_cache :: "Poll \<Rightarrow> 'v cache \<Rightarrow> 'v cache" where
  "cleanup_poll_cache inst c =
     delete_many
       [''poll_results_'' @ str_nat (poll_id inst), ''poll_list'', ''active_polls'',
        ''poll_stats'', ''top_polls''] c"

text \<open>
  The signals Django sends around a save and a delete, with the instance as sender.
  \<open>@receiver(signal, sender=Model)\<close> connects a receiver to one signal of one model;
  \<open>send\<close> runs the receivers connected to the signal it is given.
\<close>

datatype model_instance =
    PollInstance Poll
  | PollOptionInstance PollOption
  | VoteInstance Vote
  | VoteSessionInstance

datatype signal =
    Pre_save model_instance
  | Post_save model_instance bool
  | Pre_delete model_instance
  | Post_delete model_instance

fun send :: "db \<Rightarrow> signal \<Rightarrow> 'v cache \<Rightarrow> error + 'v cache" where
  "send d (Post_save (VoteInstance v) created) c = invalidate_poll_cache d v created c"
| "send d (Post_save (PollInstance p) created) c = Inr (invalidate_poll_list_cache p created c)"
| "send d (Pre_delete (PollInstance p)) c = Inr (cleanup_poll_cache p c)"
| "send d _ c = Inr c"

text \<open>The three trigger points, and the keys each of them deletes.\<close>

fun is_trigger :: "signal \<Rightarrow> bool" where
  "is_trigger (Post_save (VoteInstance v) created) = created"
| "is_trigger (Post_save (PollInstance p) created) = True"
| "is_trigger (Pre_delete (PollInstance p)) = True"
| "is_trigger _ = False"

section \<open>Votes at the model layer (Vote.clean, Vote.save)\<close>

text \<open>\<open>queryset.exists()\<close>\<close>

definition exists_rows :: "'a list \<Rightarrow> bool" where
  "exists_rows rows = (rows \<noteq> [])"

text \<open>
  \<open>.exclude(pk=self.pk)\<close> removes the row of the instance itself; for an instance that
  has no key yet it removes nothing.
\<close>

definition exclude_pk :: "nat option \<Rightarrow> Vote list \<Rightarrow> Vote list" where
  "exclude_pk self_pk rows =
     (case self_pk of None \<Rightarrow> rows | Some k \<Rightarrow> filter (\<lambda>w. pk w \<noteq> Some k) rows)"

text \<open>
  \<open>Vote.clean\<close>. Messages: "User has already voted in this poll." is
  \<open>DuplicateIdentityVote\<close>, "A vote from this IP address already exists for this poll."
  is \<open>DuplicateAddressVote\<close>. \<open>self.option.poll\<close> follows two foreign keys.
\<close>

definition clean :: "db \<Rightarrow> Vote \<Rightarrow> error + unit" where
  "clean d self =
     (case get_option d (vote_option self) of
        None \<Rightarrow> Inl DoesNotExist
      | Some opt \<Rightarrow>
         (case get_poll d (poll opt) of
            None \<Rightarrow> Inl DoesNotExist
          | Some p \<Rightarrow>
             if \<not> allow_multiple_votes p then
               if user self \<noteq> None \<and>
                  exists_rows (exclude_pk (pk self)
                    (filter (\<lambda>w. user w = user self) (votes_of_poll d (poll_id p))))
               then Inl (ValidationError [DuplicateIdentityVote])
               else if exists_rows (exclude_pk (pk self)
                    (filter (\<lambda>w. ip_address w = ip_address self) (votes_of_poll d (poll_id p))))
               then Inl (ValidationError [DuplicateAddressVote])
               else Inr ()
             else Inr ()))"

text \<open>
  \<open>Model.full_clean\<close> validates the fields, then calls \<open>clean\<close> whatever the fields
  gave, and raises one \<open>ValidationError\<close> with everything found. The only field of a
  vote with a validator is the address; that validator belongs to Django and is the
  parameter \<open>valid_ip\<close>.
\<close>

definition clean_fields :: "(string \<Rightarrow> bool) \<Rightarrow> Vote \<Rightarrow> reason list" where
  "clean_fields valid_ip self = (if valid_ip (ip_address self) then [] else [InvalidIPAddress])"

definition full_clean :: "(string \<Rightarrow> bool) \<Rightarrow> db \<Rightarrow> Vote \<Rightarrow> error + unit" where
  "full_clean valid_ip d self =
     (case clean d self of
        Inl (ValidationError rs) \<Rightarrow> Inl (ValidationError (clean_fields valid_ip self @ rs))
      | Inl e \<Rightarrow> Inl e
      | Inr _ \<Rightarrow>
          if clean_fields valid_ip self = [] then Inr ()
          else Inl (ValidationError (clean_fields valid_ip self)))"

text \<open>
  \<open>super().save()\<close>: an instance without a key is inserted under a fresh key; one with
  a key updates its row, and is inserted under that key when there is no such row.
\<close>

definition next_pk :: "Vote list \<Rightarrow> nat" where
  "next_pk rows = Suc (fold max (map (\<lambda>w. case pk w of None \<Rightarrow> 0 | Some k \<Rightarrow> k) rows) 0)"

definition save_base :: "db \<Rightarrow> Vote \<Rightarrow> db" where
  "save_base d self =
     (case pk self of
        None \<Rightarrow> d\<lparr>votes := votes d @ [self\<lparr>pk := Some (next_pk (votes d))\<rparr>]\<rparr>
      | Some k \<Rightarrow>
          if exists_rows (filter (\<lambda>w. pk w = Some k) (votes d))
          then d\<lparr>votes := map (\<lambda>w. if pk w = Some k then self else w) (votes d)\<rparr>
          else d\<lparr>votes := votes d @ [self]\<rparr>)"

text \<open>\<open>Vote.save\<close>: validate, then write.\<close>

definition save :: "(string \<Rightarrow> bool) \<Rightarrow> db \<Rightarrow> Vote \<Rightarrow> error + db" where
  "save valid_ip d self =
     (case full_clean valid_ip d self of
        Inl e \<Rightarrow> Inl e
      | Inr _ \<Rightarrow> Inr (save_base d self))"

text \<open>
  A sequence of recording operations, one after the other: a vote that \<open>save\<close> refuses
  leaves the tables as they were.
\<close>

fun record_votes :: "(string \<Rightarrow> bool) \<Rightarrow> db \<Rightarrow> Vote list \<Rightarrow> db" where
  "record_votes valid_ip d [] = d"
| "record_votes valid_ip d (v # vs) =
     (case save valid_ip d v of
        Inl e \<Rightarrow> record_votes valid_ip d vs
      | Inr d' \<Rightarrow> record_votes valid_ip d' vs)"

text \<open>
  The state the duplicate rule is about. Keys of vote rows are present and distinct
  (the primary key of the table); for a poll that disallows multiple votes there is at
  most one vote row per identity and at most one per address.
\<close>

definition pks_ok :: "db \<Rightarrow> bool" where
  "pks_ok d = (distinct (map pk (votes d)) \<and> None \<notin> set (map pk (votes d)))"

definition single_vote_ok :: "db \<Rightarrow> bool" where
  "single_vote_ok d =
     (\<forall>pid p. get_poll d pid = Some p \<and> \<not> allow_multiple_votes p \<longrightarrow>
        (\<forall>u. length (filter (\<lambda>w. user w = Some u) (votes_of_poll d pid)) \<le> 1) \<and>
        (\<forall>a. length (filter (\<lambda>w. ip_address w = a) (votes_of_poll d pid)) \<le> 1))"

section \<open>Vote validation at the request layer (VoteSerializer)\<close>

text \<open>
  What the serializer reads from the request: the authenticated user, if any, and the
  two headers \<open>get_client_ip\<close> looks at.
\<close>

record request =
  req_user :: "nat option"
  http_x_forwarded_for :: "string option"
  remote_addr :: string

text \<open>
  \<open>get_client_ip\<close>: the part of \<open>X-Forwarded-For\<close> before the first comma when the
  header is there and not empty, \<open>REMOTE_ADDR\<close> otherwise.
\<close>

definition get_client_ip :: "request \<Rightarrow> string" where
  "get_client_ip r =
     (case http_x_forwarded_for r of
        None \<Rightarrow> remote_addr r
      | Some x \<Rightarrow> if x \<noteq> [] then takeWhile (\<lambda>ch. ch \<noteq> CHR '','') x else remote_addr r)"

text \<open>\<open>Poll.is_expired\<close>, with the clock reading as an argument.\<close>

definition is_expired :: "int \<Rightarrow> Poll \<Rightarrow> bool" where
  "is_expired now p = (case expires_at p of Some e \<Rightarrow> now > e | None \<Rightarrow> False)"

text \<open>
  The field \<open>option\<close> is a primary-key field over all options: a key without a row is
  refused before any method of the serializer runs.
\<close>

definition option_to_internal_value :: "db \<Rightarrow> nat \<Rightarrow> error + PollOption" where
  "option_to_internal_value d oid =
     (case get_option d oid of
        None \<Rightarrow> Inl (ValidationError [OptionNotFound])
      | Some opt \<Rightarrow> Inr opt)"

text \<open>
  \<open>VoteSerializer.validate_option\<close>: "This poll is not active." is \<open>PollInactive\<close>,
  "This poll has expired." is \<open>PollExpired\<close>.
\<close>

definition validate_option :: "db \<Rightarrow> int \<Rightarrow> PollOption \<Rightarrow> error + PollOption" where
  "validate_option d now v =
     (case get_poll d (poll v) of
        None \<Rightarrow> Inl DoesNotExist
      | Some p \<Rightarrow>
          if \<not> is_active p then Inl (ValidationError [PollInactive])
          else if is_expired now p then Inl (ValidationError [PollExpired])
          else Inr v)"

text \<open>
  \<open>VoteSerializer.validate\<close>: "Request context is required." is
  \<open>RequestContextRequired\<close>, "You have already voted in this poll." is
  \<open>DuplicateIdentityVote\<close>, "A vote from your IP address already exists for this poll."
  is \<open>DuplicateAddressVote\<close>.
\<close>

definition validate :: "db \<Rightarrow> request option \<Rightarrow> PollOption \<Rightarrow> error + PollOption" where
  "validate d context opt =
     (case context of
        None \<Rightarrow> Inl (ValidationError [RequestContextRequired])
      | Some r \<Rightarrow>
         (case get_poll d (poll opt) of
            None \<Rightarrow> Inl DoesNotExist
          | Some p \<Rightarrow>
             if \<not> allow_multiple_votes p then
               if req_user r \<noteq> None \<and>
                  exists_rows (filter (\<lambda>w. user w = req_user r) (votes_of_poll d (poll_id p)))
               then Inl (ValidationError [DuplicateIdentityVote])
               else if exists_rows
                    (filter (\<lambda>w. ip_address w = get_client_ip r) (votes_of_poll d (poll_id p)))
               then Inl (ValidationError [DuplicateAddressVote])
               else Inr opt
             else Inr opt))"

text \<open>
  \<open>serializer.is_valid()\<close> for a vote: the field, its \<open>validate_option\<close>, then
  \<open>validate\<close>; the first error ends the run.
\<close>

definition vote_is_valid :: "db \<Rightarrow> int \<Rightarrow> request option \<Rightarrow> nat \<Rightarrow> error + PollOption" where
  "vote_is_valid d now context oid =
     (case option_to_internal_value d oid of
        Inl e \<Rightarrow> Inl e
      | Inr opt \<Rightarrow>
         (case validate_option d now opt of
            Inl e \<Rightarrow> Inl e
          | Inr opt' \<Rightarrow> validate d context opt'))"

text \<open>
  The validator as the specification words it, for a poll state given with the
  request: the five checks in the order 1 to 4 of section 4.1.
\<close>

datatype verdict = Accept | Reject reason

definition spec_validate ::
  "db \<Rightarrow> int \<Rightarrow> Poll \<Rightarrow> nat \<Rightarrow> nat option \<Rightarrow> string \<Rightarrow> verdict" where
  "spec_validate d now pollState optionId identity sourceAddress =
     (if \<not> is_active pollState then Reject PollInactive
      else if \<not> (case expires_at pollState of None \<Rightarrow> True | Some e \<Rightarrow> now \<le> e)
        then Reject PollExpired
      else if \<not> list_ex (\<lambda>opt. option_id opt = optionId \<and> poll opt = poll_id pollState) (options d)
        then Reject OptionNotFound
      else if \<not> allow_multiple_votes pollState \<and> identity \<noteq> None \<and>
              list_ex (\<lambda>w. vote_poll d w = Some (poll_id pollState) \<and> user w = identity) (votes d)
        then Reject DuplicateIdentityVote
      else if \<not> allow_multiple_votes pollState \<and>
              list_ex (\<lambda>w. vote_poll d w = Some (poll_id pollState) \<and> ip_address w = sourceAddress)
                (votes d)
        then Reject DuplicateAddressVote
      else Accept)"

text \<open>The outcome of a run of the serializer, read as a verdict.\<close>

fun verdict_of :: "error + PollOption \<Rightarrow> verdict option" where
  "verdict_of (Inr opt) = Some Accept"
| "verdict_of (Inl (ValidationError [r])) = Some (Reject r)"
| "verdict_of (Inl e) = None"

section \<open>Creating a poll (PollOptionSerializer, PollCreateSerializer)\<close>

text \<open>
  \<open>str.strip\<close> and \<open>str.lower\<close>, for text whose code points are below 256: the
  characters Python counts as white space there, and the capital letters it maps to
  small ones (A to Z, and the accented capitals 192 to 222 without the multiplication
  sign 215).
\<close>

definition isspace :: "char \<Rightarrow> bool" where
  "isspace ch = (of_char ch \<in> {9, 10, 11, 12, 13, 28, 29, 30, 31, 32, 133, 160 :: nat})"

definition strip :: "string \<Rightarrow> string" where
  "strip s = rev (dropWhile isspace (rev (dropWhile isspace s)))"

definition lower_char :: "char \<Rightarrow> char" where
  "lower_char ch =
     (let n = of_char ch :: nat
      in if (65 \<le> n \<and> n \<le> 90) \<or> (192 \<le> n \<and> n \<le> 222 \<and> n \<noteq> 215)
         then char_of (n + 32) else ch)"

definition lower :: "string \<Rightarrow> string" where
  "lower s = map lower_char s"

text \<open>
  The data of a request after the fields have parsed it. An option is a dictionary
  with the key \<open>text\<close> and, when the payload gave one, the key \<open>order\<close>
  (\<open>od_order = None\<close>: no such key). The built-in checks of the fields (type,
  presence, maximal length) come before the methods below and are not part of this
  model; a flag the payload leaves out has the default of the model.
\<close>

record option_data =
  od_text :: string
  od_order :: "nat option"

record poll_data =
  pd_title :: string
  pd_description :: string
  pd_expires_at :: "int option"
  pd_is_active :: bool
  pd_allow_multiple_votes :: bool
  pd_options :: "option_data list"

text \<open>
  \<open>PollOptionSerializer.validate_text\<close>:
  "Option text must be at least 2 characters long." is \<open>OptionTextTooShort\<close>.
\<close>

definition validate_text :: "string \<Rightarrow> error + string" where
  "validate_text v =
     (if length (strip v) < 2 then Inl (ValidationError [OptionTextTooShort])
      else Inr (strip v))"

text \<open>
  \<open>PollCreateSerializer.validate_title\<close>:
  "Poll title must be at least 5 characters long." is \<open>TitleTooShort\<close>.
\<close>

definition validate_title :: "string \<Rightarrow> error + string" where
  "validate_title v =
     (if length (strip v) < 5 then Inl (ValidationError [TitleTooShort])
      else Inr (strip v))"

text \<open>
  \<open>PollCreateSerializer.validate_expires_at\<close>:
  "Expiration date must be in the future." is \<open>ExpiryNotInFuture\<close>.
\<close>

definition validate_expires_at :: "int \<Rightarrow> int option \<Rightarrow> error + int option" where
  "validate_expires_at now v =
     (case v of
        None \<Rightarrow> Inr v
      | Some e \<Rightarrow> if e \<le> now then Inl (ValidationError [ExpiryNotInFuture]) else Inr v)"

text \<open>
  \<open>PollCreateSerializer.validate_options\<close>: "Poll must have at least 2 options." is
  \<open>TooFewOptions\<close>, "Poll cannot have more than 10 options." is \<open>TooManyOptions\<close>,
  "Poll options must be unique." is \<open>OptionsNotUnique\<close>.
\<close>

definition validate_options :: "option_data list \<Rightarrow> error + option_data list" where
  "validate_options v =
     (if length v < 2 then Inl (ValidationError [TooFewOptions])
      else if length v > 10 then Inl (ValidationError [TooManyOptions])
      else
        (let option_texts = map (\<lambda>opt. lower (strip (od_text opt))) v
         in if length option_texts \<noteq> card (set option_texts)
            then Inl (ValidationError [OptionsNotUnique])
            else Inr v))"

text \<open>
  \<open>serializer.is_valid()\<close> for a poll. Every option runs through the option
  serializer, and \<open>validate_options\<close> sees the list when every option has passed; the
  errors of the fields are collected, in the order of the fields.
\<close>

fun reasons :: "error + 'a \<Rightarrow> reason list" where
  "reasons (Inl (ValidationError rs)) = rs"
| "reasons _ = []"

definition option_run_validation :: "option_data \<Rightarrow> error + option_data" where
  "option_run_validation x =
     (case validate_text (od_text x) of
        Inl e \<Rightarrow> Inl e
      | Inr t \<Rightarrow> Inr (x\<lparr>od_text := t\<rparr>))"

definition options_run_validation :: "option_data list \<Rightarrow> error + option_data list" where
  "options_run_validation xs =
     (let children = map option_run_validation xs
      in if list_all (\<lambda>c. reasons c = []) children
         then validate_options (map (\<lambda>x. x\<lparr>od_text := strip (od_text x)\<rparr>) xs)
         else Inl (ValidationError (concat (map reasons children))))"

definition poll_is_valid :: "int \<Rightarrow> poll_data \<Rightarrow> error + poll_data" where
  "poll_is_valid now x =
     (case (validate_title (pd_title x), validate_expires_at now (pd_expires_at x),
            options_run_validation (pd_options x)) of
        (Inr t, Inr e, Inr os) \<Rightarrow> Inr (x\<lparr>pd_title := t, pd_expires_at := e, pd_options := os\<rparr>)
      | (t, e, os) \<Rightarrow> Inl (ValidationError (reasons t @ reasons e @ reasons os)))"

text \<open>
  \<open>PollCreateSerializer.create\<close>. The poll row is written first; then, for the option
  at position \<open>i\<close>, \<open>PollOption.objects.create(poll=poll, order=i + 1, **option_data)\<close>.
  A dictionary that has the key \<open>order\<close> gives the call that keyword twice, which
  Python refuses with \<open>TypeError\<close>; the table refuses a second row with the same
  poll and text (\<open>unique_together\<close>). Nothing undoes the rows written before an
  exception, so the tables are returned together with the outcome.
\<close>

definition next_id :: "nat list \<Rightarrow> nat" where
  "next_id ids = Suc (fold max ids 0)"

fun create_options :: "db \<Rightarrow> nat \<Rightarrow> nat \<Rightarrow> option_data list \<Rightarrow> db \<times> (error + unit)" where
  "create_options d pid i [] = (d, Inr ())"
| "create_options d pid i (option_data # rest) =
     (if od_order option_data \<noteq> None then (d, Inl TypeError)
      else if exists_rows
          (filter (\<lambda>opt. poll opt = pid \<and> option_text opt = od_text option_data) (options d))
        then (d, Inl IntegrityError)
      else create_options
        (d\<lparr>options := options d @
            [\<lparr>option_id = next_id (map option_id (options d)), poll = pid,
              option_text = od_text option_data, order = i + 1\<rparr>]\<rparr>)
        pid (Suc i) rest)"

definition create :: "db \<Rightarrow> int \<Rightarrow> nat \<Rightarrow> poll_data \<Rightarrow> db \<times> (error + Poll)" where
  "create d now owner validated_data =
     (let p = \<lparr>poll_id = next_id (map poll_id (polls d)), title = pd_title validated_data,
                description = pd_description validated_data, created_by = owner,
                poll_created_at = now, expires_at = pd_expires_at validated_data,
                is_active = pd_is_active validated_data,
                allow_multiple_votes = pd_allow_multiple_votes validated_data\<rparr>
      in case create_options (d\<lparr>polls := polls d @ [p]\<rparr>) (poll_id p) 0
                (pd_options validated_data) of
           (d', Inl e) \<Rightarrow> (d', Inl e)
         | (d', Inr u) \<Rightarrow> (d', Inr p))"

text \<open>
  \<open>PollListCreateView.post\<close> for an authenticated user: validate, then
  \<open>serializer.save(created_by=request.user)\<close>.
\<close>

definition create_poll :: "db \<Rightarrow> int \<Rightarrow> nat \<Rightarrow> poll_data \<Rightarrow> db \<times> (error + Poll)" where
  "create_poll d now owner payload =
     (case poll_is_valid now payload of
        Inl e \<Rightarrow> (d, Inl e)
      | Inr validated_data \<Rightarrow> create d now owner validated_data)"



section \<open>Results of a poll (Poll.get_results)\<close>

text \<open>
  A Python \<open>float\<close> is a binary64 number, and every operation on floats gives the
  binary64 number nearest to the exact result, the one with the even significand when
  two are equally near. A float is modelled by the rational number it is.
  \<open>binary64 q\<close> is the float nearest to \<open>q\<close>: \<open>q\<close> is scaled by the power of two that
  makes its significand an integer of 53 bits, and rounded there. (The range of the
  exponent is not modelled: for counts below \<open>2\<^sup>6\<^sup>4\<close> the quotients and
  percentages computed here are 0 or lie between \<open>2\<^sup>-\<^sup>6\<^sup>4\<close> and 128, far inside
  it.)
\<close>

definition round_half_even :: "rat \<Rightarrow> int" where
  "round_half_even q =
     (let f = \<lfloor>q\<rfloor>; r = q - of_int f
      in if r < 1 / 2 then f else if 1 / 2 < r then f + 1 else if even f then f else f + 1)"

definition floor_log2 :: "rat \<Rightarrow> int" where
  "floor_log2 q =
     (let k = bitlen (fst (quotient_of q)) - bitlen (snd (quotient_of q))
      in if 2 powi k \<le> q then k else k - 1)"

definition binary64 :: "rat \<Rightarrow> rat" where
  "binary64 q =
     (if q = 0 then 0
      else let u = 2 powi (floor_log2 \<bar>q\<bar> - 52)
           in sgn q * of_int (round_half_even (\<bar>q\<bar> / u)) * u)"

text \<open>
  \<open>a / b\<close> on integers, \<open>x * y\<close> on floats, and \<open>round(x, ndigits)\<close>, which rounds
  the exact value of \<open>x\<close> to \<open>ndigits\<close> decimals, half to even, and gives the float
  nearest to that decimal.
\<close>

definition truediv :: "nat \<Rightarrow> nat \<Rightarrow> rat" where
  "truediv a b = binary64 (of_nat a / of_nat b)"

definition float_mul :: "rat \<Rightarrow> rat \<Rightarrow> rat" where
  "float_mul x y = binary64 (x * y)"

definition py_round :: "rat \<Rightarrow> nat \<Rightarrow> rat" where
  "py_round x ndigits = binary64 (of_int (round_half_even (x * 10 ^ ndigits)) / 10 ^ ndigits)"

text \<open>
  The rows of the query
  \<open>self.options.annotate(vote_count=Count('votes')).values('id', 'text', 'vote_count')
  .order_by('-vote_count')\<close>: one row per option of the poll, with the number of vote
  rows that refer to the option. \<open>order_by\<close> replaces the default ordering of the
  model, so the count is the only sort key; rows with equal counts stay in the order
  of the option table.
\<close>

record row =
  r_id :: nat
  r_text :: string
  vote_count :: nat

record result_row = row +
  percentage :: rat

record results =
  res_poll_id :: nat
  res_poll_title :: string
  total_votes :: nat
  res_options :: "result_row list"
  res_is_expired :: bool
  res_created_at :: int
  res_expires_at :: "int option"

definition count_votes :: "db \<Rightarrow> nat \<Rightarrow> nat" where
  "count_votes d oid = length (filter (\<lambda>w. vote_option w = oid) (votes d))"

definition poll_options :: "db \<Rightarrow> Poll \<Rightarrow> PollOption list" where
  "poll_options d self = filter (\<lambda>opt. poll opt = poll_id self) (options d)"

definition annotate_vote_count :: "db \<Rightarrow> PollOption list \<Rightarrow> row list" where
  "annotate_vote_count d opts =
     map (\<lambda>opt. \<lparr>r_id = option_id opt, r_text = option_text opt,
                  vote_count = count_votes d (option_id opt)\<rparr>) opts"

definition order_by_vote_count_desc :: "row list \<Rightarrow> row list" where
  "order_by_vote_count_desc rows = sort_key (\<lambda>r. - int (vote_count r)) rows"

definition get_results :: "db \<Rightarrow> int \<Rightarrow> Poll \<Rightarrow> results" where
  "get_results d now self =
     (let rows = order_by_vote_count_desc (annotate_vote_count d (poll_options d self));
          total = sum_list (map vote_count rows)
      in \<lparr>res_poll_id = poll_id self,
          res_poll_title = title self,
          total_votes = total,
          res_options =
            map (\<lambda>option. \<lparr>r_id = r_id option, r_text = r_text option,
                 vote_count = vote_count option,
                 percentage =
                   (if total > 0
                    then py_round (float_mul (truediv (vote_count option) total) 100) 2
                    else 0)\<rparr>) rows,
          res_is_expired = is_expired now self,
          res_created_at = poll_created_at self,
          res_expires_at = expires_at self\<rparr>)"

text \<open>\<open>PollResultsView.get_object\<close>: \<open>None\<close> is the answer 404, "Poll not found."\<close>

definition poll_results_view :: "db \<Rightarrow> int \<Rightarrow> nat \<Rightarrow> results option" where
  "poll_results_view d now poll_pk = map_option (get_results d now) (get_poll d poll_pk)"


text \<open>
  And of the order of its rows: counts strictly descending, and of two rows with
  equal counts the one with the smaller display order first.
\<close>

definition display_order :: "db \<Rightarrow> nat \<Rightarrow> nat" where
  "display_order d oid = (case get_option d oid of None \<Rightarrow> 0 | Some opt \<Rightarrow> order opt)"

definition ordered_with_display_ties :: "db \<Rightarrow> result_row list \<Rightarrow> bool" where
  "ordered_with_display_ties d rows =
     sorted_wrt (\<lambda>a b. vote_count a > vote_count b \<or>
        (vote_count a = vote_count b \<and> display_order d (r_id a) \<le> display_order d (r_id b))) rows"

section \<open>Example data\<close>

text \<open>
  One active poll without expiry that disallows multiple votes, with the options A and
  B, as the tests of the repository set it up.
\<close>

definition ex_poll :: Poll where
  "ex_poll = \<lparr>poll_id = 1, title = ''Test Poll'', description = [], created_by = 1,
     poll_created_at = 0, expires_at = None, is_active = True, allow_multiple_votes = False\<rparr>"

definition ex_options :: "PollOption list" where
  "ex_options = [\<lparr>option_id = 1, poll = 1, option_text = ''A'', order = 1\<rparr>,
                 \<lparr>option_id = 2, poll = 1, option_text = ''B'', order = 2\<rparr>]"

definition ex_db :: db where
  "ex_db = \<lparr>polls = [ex_poll], options = ex_options, votes = []\<rparr>"

definition new_vote :: "nat option \<Rightarrow> nat \<Rightarrow> string \<Rightarrow> Vote" where
  "new_vote u oid ip = \<lparr>pk = None, user = u, vote_option = oid, ip_address = ip, user_agent = []\<rparr>"

definition ex_attempts :: "Vote list" where
  "ex_attempts = [new_vote (Some 7) 1 ''10.0.0.1'', new_vote (Some 7) 2 ''10.0.0.2'',
                  new_vote None 1 ''10.0.0.1'', new_vote None 2 ''10.0.0.3'']"

definition ex_closed_db :: db where
  "ex_closed_db = \<lparr>polls = [ex_poll\<lparr>is_active := False\<rparr>], options = ex_options,
     votes = [(new_vote (Some 7) 1 ''10.0.0.1'')\<lparr>pk := Some 1\<rparr>]\<rparr>"

definition ex_voted_db :: db where
  "ex_voted_db = ex_db\<lparr>votes := [(new_vote (Some 7) 1 ''10.0.0.1'')\<lparr>pk := Some 1\<rparr>]\<rparr>"

text \<open>The payload of \<open>test_create_poll\<close> in polls/tests.py.\<close>

definition test_payload :: poll_data where
  "test_payload = \<lparr>pd_title = ''Test Poll'', pd_description = ''Test Description'',
     pd_expires_at = None, pd_is_active = True, pd_allow_multiple_votes = False,
     pd_options = [\<lparr>od_text = ''Option 1'', od_order = Some 1\<rparr>,
                   \<lparr>od_text = ''Option 2'', od_order = Some 2\<rparr>]\<rparr>"

definition empty_db :: db where
  "empty_db = \<lparr>polls = [], options = [], votes = []\<rparr>"

definition opts :: "string list \<Rightarrow> option_data list" where
  "opts ts = map (\<lambda>t. \<lparr>od_text = t, od_order = None\<rparr>) ts"

text \<open>
  The scenario of \<open>test_poll_results\<close>: two votes for the first option, one for the
  second.
\<close>

definition scenario_db :: db where
  "scenario_db = ex_db\<lparr>votes :=
     [(new_vote None 1 ''192.168.1.1'')\<lparr>pk := Some 1\<rparr>,
      (new_vote None 1 ''192.168.1.2'')\<lparr>pk := Some 2\<rparr>,
      (new_vote None 2 ''192.168.1.3'')\<lparr>pk := Some 3\<rparr>]\<rparr>"



text \<open>
  A poll without votes whose option rows were written in the order B, A with the
  display orders 2, 1.
\<close>

definition tie_db :: db where
  "tie_db = \<lparr>polls = [ex_poll],
     options = [\<lparr>option_id = 1, poll = 1, option_text = ''B'', order = 2\<rparr>,
                \<lparr>option_id = 2, poll = 1, option_text = ''A'', order = 1\<rparr>],
     votes = []\<rparr>"

definition ex_cache :: "nat cache" where
  "ex_cache = [''poll_results_1'' \<mapsto> 1, ''poll_stats'' \<mapsto> 2, ''poll_results_2'' \<mapsto> 3]"

section \<open>Properties of the cache invalidation\<close>

lemma delete_many_restrict: "delete_many keys c = c |` (- set keys)"
  unfolding delete_many_def
proof (induction keys arbitrary: c)
  case Nil
  show ?case by simp
next
  case (Cons k ks)
  have "fold (\<lambda>k m. m(k := None)) (k # ks) c = fold (\<lambda>k m. m(k := None)) ks (c(k := None))"
    by simp
  also have "\<dots> = (c(k := None)) |` (- set ks)"
    by (rule Cons.IH)
  also have "\<dots> = c |` (- set (k # ks))"
    by (rule ext) (simp add: restrict_map_def)
  finally show ?case .
qed

lemma send_not_trigger: "\<not> is_trigger s \<Longrightarrow> send d s c = Inr c"
  by (cases "(d, s, c)" rule: send.cases) (simp_all add: invalidate_poll_cache_def)

text \<open>
  Claim C9. Invalidation happens at three points and nowhere else: a vote that was
  just inserted for poll \<open>P\<close> deletes \<open>poll_results_P\<close>, \<open>poll_stats\<close> and \<open>top_polls\<close>;
  a poll that was saved (created or updated) deletes \<open>poll_list\<close>, \<open>active_polls\<close> and
  \<open>poll_stats\<close>; a poll about to be deleted deletes all five keys; every other signal
  leaves the cache as it is. The result is the old cache restricted to the
  complement of the key set, so no other entry is touched.
\<close>

theorem cache_invalidation_triggers:
  fixes c :: "'v cache"
  shows "(get_option d (vote_option v) = Some opt \<and> get_poll d (poll opt) = Some p \<longrightarrow>
            send d (Post_save (VoteInstance v) True) c =
              Inr (c |` (- {''poll_results_'' @ str_nat (poll_id p), ''poll_stats'', ''top_polls''})))
       \<and> send d (Post_save (PollInstance q) created) c =
              Inr (c |` (- {''poll_list'', ''active_polls'', ''poll_stats''}))
       \<and> send d (Pre_delete (PollInstance q)) c =
              Inr (c |` (- {''poll_results_'' @ str_nat (poll_id q), ''poll_list'',
                            ''active_polls'', ''poll_stats'', ''top_polls''}))
       \<and> (\<not> is_trigger s \<longrightarrow> send d s c = Inr c)"
  by (simp add: invalidate_poll_cache_def invalidate_poll_list_cache_def cleanup_poll_cache_def
      delete_many_restrict send_not_trigger)

theorem cache_invalidation_triggers_witness:
  "get_option ex_db (vote_option (new_vote None 1 ''10.0.0.1'')) = Some (hd ex_options)
   \<and> get_poll ex_db (poll (hd ex_options)) = Some ex_poll
   \<and> send ex_db (Post_save (VoteInstance (new_vote None 1 ''10.0.0.1'')) True) ex_cache
       = Inr [''poll_results_2'' \<mapsto> 3]
   \<and> \<not> is_trigger (Post_save (VoteInstance (new_vote None 1 ''10.0.0.1'')) False)
   \<and> send ex_db (Post_save (VoteInstance (new_vote None 1 ''10.0.0.1'')) False) ex_cache = Inr ex_cache"
proof -
  have o: "get_option ex_db (vote_option (new_vote None 1 ''10.0.0.1'')) = Some (hd ex_options)"
    by (simp add: get_option_def ex_db_def ex_options_def new_vote_def)
  have p: "get_poll ex_db (poll (hd ex_options)) = Some ex_poll"
    by (simp add: get_poll_def ex_db_def ex_options_def ex_poll_def)
  have n: "\<not> is_trigger (Post_save (VoteInstance (new_vote None 1 ''10.0.0.1'')) False)"
    by simp
  have k: "str_nat (poll_id ex_poll) = ''1''"
    by (simp add: ex_poll_def str_nat.simps digit_def)
  have r: "ex_cache |` (- {''poll_results_1'', ''poll_stats'', ''top_polls''}) = [''poll_results_2'' \<mapsto> 3]"
    by (rule ext) (simp add: ex_cache_def restrict_map_def)
  from cache_invalidation_triggers
    [of ex_db "new_vote None 1 ''10.0.0.1''" "hd ex_options" ex_poll ex_cache ex_poll True
        "Post_save (VoteInstance (new_vote None 1 ''10.0.0.1'')) False"]
  show ?thesis using o p n k r by simp
qed

section \<open>Properties of the model layer\<close>

lemma get_poll_id: "get_poll d pid = Some p \<Longrightarrow> poll_id p = pid"
  by (auto simp: get_poll_def find_Some_iff)

lemma get_option_id: "get_option d oid = Some opt \<Longrightarrow> option_id opt = oid"
  by (auto simp: get_option_def find_Some_iff)

lemma save_base_tables [simp]:
  "polls (save_base d s) = polls d" "options (save_base d s) = options d"
  by (simp_all add: save_base_def split: option.splits)

lemma get_poll_save_base [simp]: "get_poll (save_base d s) pid = get_poll d pid"
  by (simp add: get_poll_def)

lemma vote_poll_save_base [simp]: "vote_poll (save_base d s) w = vote_poll d w"
  by (simp add: vote_poll_def get_option_def)

lemma vote_poll_pk_update [simp]: "vote_poll d (w\<lparr>pk := x\<rparr>) = vote_poll d w"
  by (simp add: vote_poll_def)

lemma fold_max_ge: "(a::nat) \<le> fold max xs a"
proof (induction xs arbitrary: a)
  case Nil
  show ?case by simp
next
  case (Cons x xs)
  have "a \<le> max x a" by simp
  also have "\<dots> \<le> fold max xs (max x a)" by (rule Cons.IH)
  finally show ?case by simp
qed

lemma fold_max_mem: "x \<in> set xs \<Longrightarrow> (x::nat) \<le> fold max xs a"
proof (induction xs arbitrary: a)
  case Nil
  then show ?case by simp
next
  case (Cons y ys)
  show ?case
  proof (cases "x = y")
    case True
    have "x \<le> max y a" using True by simp
    also have "\<dots> \<le> fold max ys (max y a)" by (rule fold_max_ge)
    finally show ?thesis by simp
  next
    case False
    with Cons.prems have "x \<in> set ys" by simp
    then show ?thesis using Cons.IH by simp
  qed
qed

lemma next_pk_fresh: "Some (next_pk rows) \<notin> set (map pk rows)"
proof
  assume "Some (next_pk rows) \<in> set (map pk rows)"
  then obtain w where w: "w \<in> set rows" "pk w = Some (next_pk rows)" by auto
  then have "next_pk rows \<in> set (map (\<lambda>w. case pk w of None \<Rightarrow> 0 | Some k \<Rightarrow> k) rows)"
    by force
  then have "next_pk rows \<le> fold max (map (\<lambda>w. case pk w of None \<Rightarrow> 0 | Some k \<Rightarrow> k) rows) 0"
    by (rule fold_max_mem)
  then show False by (simp add: next_pk_def)
qed

lemma map_pk_replace:
  "pk s = Some k \<Longrightarrow> map pk (map (\<lambda>w. if pk w = Some k then s else w) rows) = map pk rows"
  by (induction rows) auto

lemma pks_ok_save_base: "pks_ok d \<Longrightarrow> pks_ok (save_base d s)"
proof (cases "pk s")
  case None
  assume "pks_ok d"
  then show ?thesis
    using None next_pk_fresh [of "votes d"] by (simp add: pks_ok_def save_base_def)
next
  case (Some k)
  assume ok: "pks_ok d"
  show ?thesis
  proof (cases "exists_rows (filter (\<lambda>w. pk w = Some k) (votes d))")
    case True
    then have "map pk (votes (save_base d s)) = map pk (votes d)"
      using Some by (simp add: save_base_def map_pk_replace del: map_map)
    then show ?thesis
      using ok unfolding pks_ok_def by simp
  next
    case False
    then have "Some k \<notin> set (map pk (votes d))"
      by (auto simp: exists_rows_def filter_empty_conv)
    then show ?thesis
      using ok Some False by (simp add: pks_ok_def save_base_def)
  qed
qed

lemma count_replace:
  "distinct (map pk rows) \<Longrightarrow>
   length (filter P (map (\<lambda>w. if pk w = Some k then s else w) rows))
     \<le> length (filter P (filter (\<lambda>w. pk w \<noteq> Some k) rows)) + (if P s then 1 else 0)"
proof (induction rows)
  case Nil
  show ?case by simp
next
  case (Cons w ws)
  show ?case
  proof (cases "pk w = Some k")
    case True
    with Cons.prems have "\<forall>x \<in> set ws. pk x \<noteq> Some k" by force
    then have "map (\<lambda>w. if pk w = Some k then s else w) ws = ws"
      and "filter (\<lambda>w. pk w \<noteq> Some k) ws = ws"
      by (simp_all add: map_idI)
    then show ?thesis using True by simp
  next
    case False
    then show ?thesis using Cons by (auto split: if_splits)
  qed
qed

lemma count_save_base:
  assumes ok: "pks_ok d"
    and le: "length (filter P (votes d)) \<le> 1"
    and chk: "P s \<Longrightarrow> exclude_pk (pk s) (filter P (votes d)) = []"
    and upd: "\<And>x. P (s\<lparr>pk := x\<rparr>) = P s"
  shows "length (filter P (votes (save_base d s))) \<le> 1"
proof (cases "pk s")
  case None
  show ?thesis
  proof (cases "P s")
    case True
    with chk None have "filter P (votes d) = []" by (simp add: exclude_pk_def)
    then show ?thesis using None by (simp add: save_base_def upd)
  next
    case False
    then show ?thesis using None le by (simp add: save_base_def upd)
  qed
next
  case (Some k)
  show ?thesis
  proof (cases "exists_rows (filter (\<lambda>w. pk w = Some k) (votes d))")
    case True
    have d: "distinct (map pk (votes d))" using ok by (simp add: pks_ok_def)
    have "length (filter P (votes (save_base d s)))
        \<le> length (filter P (filter (\<lambda>w. pk w \<noteq> Some k) (votes d))) + (if P s then 1 else 0)"
      using True Some count_replace [OF d] by (simp add: save_base_def)
    moreover have "P s \<Longrightarrow> filter P (filter (\<lambda>w. pk w \<noteq> Some k) (votes d)) = []"
      using chk Some by (simp add: exclude_pk_def conj_commute)
    moreover have "length (filter P (filter (\<lambda>w. pk w \<noteq> Some k) (votes d))) \<le> length (filter P (votes d))"
      by (simp add: conj_commute) (metis filter_filter length_filter_le)
    ultimately show ?thesis using le by (cases "P s") auto
  next
    case False
    then have none: "\<forall>w \<in> set (votes d). pk w \<noteq> Some k"
      by (auto simp: exists_rows_def filter_empty_conv)
    show ?thesis
    proof (cases "P s")
      case True
      with chk Some have "filter (\<lambda>w. pk w \<noteq> Some k) (filter P (votes d)) = []"
        by (simp add: exclude_pk_def)
      with none have "filter P (votes d) = []"
        by (auto simp: filter_empty_conv)
      then show ?thesis using Some False by (simp add: save_base_def)
    next
      case False
      then show ?thesis using Some \<open>\<not> exists_rows _\<close> le by (simp add: save_base_def)
    qed
  qed
qed

lemma full_clean_Inr: "full_clean valid_ip d s = Inr x \<Longrightarrow> clean d s = Inr ()"
  by (auto simp: full_clean_def split: sum.splits error.splits if_splits)

lemma clean_ok_checks:
  assumes "clean d s = Inr ()" "vote_poll d s = Some pid" "get_poll d pid = Some p"
    "\<not> allow_multiple_votes p"
  shows "user s \<noteq> None \<Longrightarrow>
           exclude_pk (pk s) (filter (\<lambda>w. user w = user s) (votes_of_poll d pid)) = []"
    and "exclude_pk (pk s) (filter (\<lambda>w. ip_address w = ip_address s) (votes_of_poll d pid)) = []"
  using assms get_poll_id [OF assms(3)]
  by (auto simp: clean_def vote_poll_def exists_rows_def split: option.splits if_splits)

lemma single_vote_ok_save:
  assumes ok: "pks_ok d" and inv: "single_vote_ok d" and sv: "save valid_ip d s = Inr d'"
  shows "single_vote_ok d'"
proof -
  from sv have d': "d' = save_base d s" and cl: "clean d s = Inr ()"
    by (auto simp: save_def split: sum.splits dest: full_clean_Inr)
  show ?thesis
    unfolding single_vote_ok_def
  proof (intro allI impI conjI)
    fix pid p u
    assume "get_poll d' pid = Some p \<and> \<not> allow_multiple_votes p"
    then have gp: "get_poll d pid = Some p" and na: "\<not> allow_multiple_votes p"
      by (simp_all add: d')
    let ?P = "\<lambda>w. vote_poll d w = Some pid \<and> user w = Some u"
    have "length (filter ?P (votes (save_base d s))) \<le> 1"
    proof (rule count_save_base [OF ok])
      show "length (filter ?P (votes d)) \<le> 1"
        using inv gp na by (simp add: single_vote_ok_def votes_of_poll_def)
      show "exclude_pk (pk s) (filter ?P (votes d)) = []" if "?P s"
        using clean_ok_checks(1) [OF cl _ gp na] that by (simp add: votes_of_poll_def)
      show "\<And>x. ?P (s\<lparr>pk := x\<rparr>) = ?P s" by simp
    qed
    then show "length (filter (\<lambda>w. user w = Some u) (votes_of_poll d' pid)) \<le> 1"
      by (simp add: d' votes_of_poll_def)
  next
    fix pid p a
    assume "get_poll d' pid = Some p \<and> \<not> allow_multiple_votes p"
    then have gp: "get_poll d pid = Some p" and na: "\<not> allow_multiple_votes p"
      by (simp_all add: d')
    let ?P = "\<lambda>w. vote_poll d w = Some pid \<and> ip_address w = a"
    have "length (filter ?P (votes (save_base d s))) \<le> 1"
    proof (rule count_save_base [OF ok])
      show "length (filter ?P (votes d)) \<le> 1"
        using inv gp na by (simp add: single_vote_ok_def votes_of_poll_def)
      show "exclude_pk (pk s) (filter ?P (votes d)) = []" if "?P s"
        using clean_ok_checks(2) [OF cl _ gp na] that by (auto simp add: votes_of_poll_def)
      show "\<And>x. ?P (s\<lparr>pk := x\<rparr>) = ?P s" by simp
    qed
    then show "length (filter (\<lambda>w. ip_address w = a) (votes_of_poll d' pid)) \<le> 1"
      by (simp add: d' votes_of_poll_def)
  qed
qed

lemma pks_ok_save: "pks_ok d \<Longrightarrow> save valid_ip d s = Inr d' \<Longrightarrow> pks_ok d'"
  by (auto simp: save_def split: sum.splits intro: pks_ok_save_base)

text \<open>
  Claim C1. Start from tables in which every poll that disallows multiple votes has at
  most one vote per identity and at most one per address (in particular: no votes at
  all), and run any sequence of recording operations through \<open>Vote.save\<close>, one after
  the other. The tables at the end are in that state again.
\<close>

theorem single_vote_invariant:
  "pks_ok d \<Longrightarrow> single_vote_ok d \<Longrightarrow> single_vote_ok (record_votes valid_ip d vs)"
proof -
  have "pks_ok d \<Longrightarrow> single_vote_ok d \<Longrightarrow>
        pks_ok (record_votes valid_ip d vs) \<and> single_vote_ok (record_votes valid_ip d vs)"
  proof (induction vs arbitrary: d)
    case Nil
    then show ?case by simp
  next
    case (Cons v vs)
    show ?case
    proof (cases "save valid_ip d v")
      case (Inl e)
      then show ?thesis using Cons by simp
    next
      case (Inr d')
      have "pks_ok d'" "single_vote_ok d'"
        using Cons.prems Inr by (auto intro: pks_ok_save single_vote_ok_save)
      then show ?thesis using Cons.IH Inr by simp
    qed
  qed
  then show "pks_ok d \<Longrightarrow> single_vote_ok d \<Longrightarrow> single_vote_ok (record_votes valid_ip d vs)"
    by simp
qed

theorem single_vote_invariant_witness:
  "pks_ok ex_db \<and> single_vote_ok ex_db
   \<and> votes (record_votes (\<lambda>ip. True) ex_db ex_attempts) =
        [(new_vote (Some 7) 1 ''10.0.0.1'')\<lparr>pk := Some 1\<rparr>, (new_vote None 2 ''10.0.0.3'')\<lparr>pk := Some 2\<rparr>]
   \<and> single_vote_ok (record_votes (\<lambda>ip. True) ex_db ex_attempts)"
proof -
  have a: "pks_ok ex_db"
    by (simp add: pks_ok_def ex_db_def)
  have b: "single_vote_ok ex_db"
    by (simp add: single_vote_ok_def votes_of_poll_def ex_db_def)
  have c: "votes (record_votes (\<lambda>ip. True) ex_db ex_attempts) =
        [(new_vote (Some 7) 1 ''10.0.0.1'')\<lparr>pk := Some 1\<rparr>, (new_vote None 2 ''10.0.0.3'')\<lparr>pk := Some 2\<rparr>]"
    by (simp add: ex_attempts_def ex_db_def ex_options_def ex_poll_def new_vote_def save_def
        full_clean_def clean_fields_def clean_def get_option_def get_poll_def votes_of_poll_def
        vote_poll_def exists_rows_def exclude_pk_def save_base_def next_pk_def)
  from single_vote_invariant [OF a b, of "\<lambda>ip. True" ex_attempts] a b c
  show ?thesis by simp
qed



section \<open>Properties of the request layer\<close>

lemma get_option_mem: "get_option d oid = Some opt \<Longrightarrow> opt \<in> set (options d)"
  by (auto simp: get_option_def find_Some_iff)

lemma exists_rows_votes_of_poll:
  "exists_rows (filter Q (votes_of_poll d pid))
     = list_ex (\<lambda>w. vote_poll d w = Some pid \<and> Q w) (votes d)"
  by (auto simp: exists_rows_def votes_of_poll_def filter_empty_conv list_ex_iff)

text \<open>
  Claim C3. The poll of a vote request is the poll of the option it names. For a
  request whose option exists, the serializer gives the verdict of the checks in the
  order of the specification: poll active, poll not expired (no expiry, or the clock
  at or before it), option in the poll, no vote of the same identity (when the request
  has one), no vote from the same address; the first check that fails gives the
  reason. A request whose option does not exist has no poll, and is refused with
  \<open>OptionNotFound\<close>.
\<close>

theorem vote_validation_order:
  "(get_option d oid = None \<longrightarrow>
      vote_is_valid d now (Some r) oid = Inl (ValidationError [OptionNotFound]))
   \<and> (get_option d oid = Some opt \<and> get_poll d (poll opt) = Some p \<longrightarrow>
      verdict_of (vote_is_valid d now (Some r) oid)
        = Some (spec_validate d now p oid (req_user r) (get_client_ip r)))"
proof (intro conjI impI)
  assume "get_option d oid = None"
  then show "vote_is_valid d now (Some r) oid = Inl (ValidationError [OptionNotFound])"
    by (simp add: vote_is_valid_def option_to_internal_value_def)
next
  assume a: "get_option d oid = Some opt \<and> get_poll d (poll opt) = Some p"
  then have o: "get_option d oid = Some opt" and p: "get_poll d (poll opt) = Some p"
    by simp_all
  have pid: "poll_id p = poll opt" using p by (rule get_poll_id)
  have oid: "option_id opt = oid" using o by (rule get_option_id)
  have belongs: "list_ex (\<lambda>x. option_id x = oid \<and> poll x = poll_id p) (options d)"
    using get_option_mem [OF o] pid oid by (auto simp: list_ex_iff)
  have exp: "is_expired now p = (\<not> (case expires_at p of None \<Rightarrow> True | Some e \<Rightarrow> now \<le> e))"
    by (auto simp: is_expired_def split: option.splits)
  show "verdict_of (vote_is_valid d now (Some r) oid)
        = Some (spec_validate d now p oid (req_user r) (get_client_ip r))"
    using o p belongs
    by (simp add: vote_is_valid_def option_to_internal_value_def validate_option_def
        validate_def spec_validate_def exp exists_rows_votes_of_poll pid)
qed

theorem vote_validation_order_witness:
  "get_option ex_closed_db 9 = None
   \<and> vote_is_valid ex_closed_db 0 (Some \<lparr>req_user = None, http_x_forwarded_for = None, remote_addr = ''10.0.0.1''\<rparr>) 9
       = Inl (ValidationError [OptionNotFound])
   \<and> get_option ex_db 1 = Some (ex_options ! 0) \<and> get_poll ex_db (poll (ex_options ! 0)) = Some ex_poll
   \<and> verdict_of (vote_is_valid ex_db 0 (Some \<lparr>req_user = None, http_x_forwarded_for = None, remote_addr = ''10.0.0.1''\<rparr>) 1)
       = Some Accept
   \<and> get_option ex_closed_db 1 = Some (ex_options ! 0)
   \<and> get_poll ex_closed_db (poll (ex_options ! 0)) = Some (ex_poll\<lparr>is_active := False\<rparr>)
   \<and> verdict_of (vote_is_valid ex_closed_db 0 (Some \<lparr>req_user = Some 7, http_x_forwarded_for = None, remote_addr = ''10.0.0.1''\<rparr>) 1)
       = Some (Reject PollInactive)
   \<and> get_option ex_voted_db 2 = Some (ex_options ! 1)
   \<and> get_poll ex_voted_db (poll (ex_options ! 1)) = Some ex_poll
   \<and> verdict_of (vote_is_valid ex_voted_db 0 (Some \<lparr>req_user = Some 7, http_x_forwarded_for = None, remote_addr = ''10.0.0.1''\<rparr>) 2)
       = Some (Reject DuplicateIdentityVote)
   \<and> verdict_of (vote_is_valid ex_voted_db 0 (Some \<lparr>req_user = None, http_x_forwarded_for = None, remote_addr = ''10.0.0.1''\<rparr>) 2)
       = Some (Reject DuplicateAddressVote)"
proof -
  let ?r = "\<lparr>req_user = None, http_x_forwarded_for = None, remote_addr = ''10.0.0.1''\<rparr>"
  let ?r7 = "\<lparr>req_user = Some 7, http_x_forwarded_for = None, remote_addr = ''10.0.0.1''\<rparr>"
  have 1: "get_option ex_closed_db 9 = None"
    by (simp add: get_option_def ex_closed_db_def ex_options_def)
  have 2: "get_option ex_db 1 = Some (ex_options ! 0)"
    by (simp add: get_option_def ex_db_def ex_options_def)
  have 3: "get_poll ex_db (poll (ex_options ! 0)) = Some ex_poll"
    by (simp add: get_poll_def ex_db_def ex_options_def ex_poll_def)
  have 4: "get_option ex_closed_db 1 = Some (ex_options ! 0)"
    by (simp add: get_option_def ex_closed_db_def ex_options_def)
  have 5: "get_poll ex_closed_db (poll (ex_options ! 0)) = Some (ex_poll\<lparr>is_active := False\<rparr>)"
    by (simp add: get_poll_def ex_closed_db_def ex_options_def ex_poll_def)
  have 6: "spec_validate ex_db 0 ex_poll 1 (req_user ?r) (get_client_ip ?r) = Accept"
    by (simp add: spec_validate_def ex_db_def ex_poll_def ex_options_def)
  have 7: "spec_validate ex_closed_db 0 (ex_poll\<lparr>is_active := False\<rparr>) 1 (req_user ?r7) (get_client_ip ?r7)
             = Reject PollInactive"
    by (simp add: spec_validate_def)
  have 8: "get_option ex_voted_db 2 = Some (ex_options ! 1)"
    by (simp add: get_option_def ex_voted_db_def ex_db_def ex_options_def)
  have 9: "get_poll ex_voted_db (poll (ex_options ! 1)) = Some ex_poll"
    by (simp add: get_poll_def ex_voted_db_def ex_db_def ex_options_def ex_poll_def)
  have 10: "spec_validate ex_voted_db 0 ex_poll 2 (req_user ?r7) (get_client_ip ?r7)
             = Reject DuplicateIdentityVote"
    by (simp add: spec_validate_def ex_voted_db_def ex_db_def ex_poll_def ex_options_def
        vote_poll_def get_option_def new_vote_def get_client_ip_def)
  have 11: "spec_validate ex_voted_db 0 ex_poll 2 (req_user ?r) (get_client_ip ?r)
             = Reject DuplicateAddressVote"
    by (simp add: spec_validate_def ex_voted_db_def ex_db_def ex_poll_def ex_options_def
        vote_poll_def get_option_def new_vote_def get_client_ip_def)
  from vote_validation_order [where d = ex_voted_db and oid = 2 and now = 0 and r = ?r7
      and opt = "ex_options ! 1" and p = ex_poll]
    vote_validation_order [where d = ex_voted_db and oid = 2 and now = 0 and r = ?r
      and opt = "ex_options ! 1" and p = ex_poll]
    vote_validation_order [where d = ex_closed_db and oid = 9 and now = 0 and r = ?r
      and opt = "ex_options ! 0" and p = ex_poll]
    vote_validation_order [where d = ex_db and oid = 1 and now = 0 and r = ?r
      and opt = "ex_options ! 0" and p = ex_poll]
    vote_validation_order [where d = ex_closed_db and oid = 1 and now = 0 and r = ?r7
      and opt = "ex_options ! 0" and p = "ex_poll\<lparr>is_active := False\<rparr>"]
    1 2 3 4 5 6 7 8 9 10 11
  show ?thesis by simp
qed

section \<open>Properties of poll creation\<close>










text \<open>
  Claim C8, at the request of \<open>test_create_poll\<close>, whose options carry the key
  \<open>order\<close>: the request passes validation, the poll row is written, and the creation
  of the first option ends in \<open>TypeError\<close>, an exception that is not a validation
  error and that nothing catches.
\<close>

theorem create_poll_order_crash:
  "create_poll empty_db 0 1 test_payload =
     (\<lparr>polls = [\<lparr>poll_id = 1, title = ''Test Poll'', description = ''Test Description'',
          created_by = 1, poll_created_at = 0, expires_at = None, is_active = True,
          allow_multiple_votes = False\<rparr>], options = [], votes = []\<rparr>, Inl TypeError)"
  by code_simp

section \<open>Properties of the float operations\<close>

lemma round_half_even_err: "\<bar>of_int (round_half_even q) - q\<bar> \<le> 1 / 2"
proof -
  have "of_int \<lfloor>q\<rfloor> \<le> q" "q < of_int \<lfloor>q\<rfloor> + 1"
    by linarith+
  then show ?thesis
    by (auto simp: round_half_even_def Let_def abs_le_iff)
qed

lemma round_half_even_eqI:
  assumes "\<bar>q - of_int m\<bar> < 1 / 2"
  shows "round_half_even q = m"
proof -
  have lo: "of_int m - 1 / 2 < q" and hi: "q < of_int m + 1 / 2"
    using assms by linarith+
  have "of_int (m - 1) \<le> q" using lo by simp
  then have 1: "m - 1 \<le> \<lfloor>q\<rfloor>" by (simp only: le_floor_iff)
  have "q < of_int (m + 1)" using hi by simp
  then have 2: "\<lfloor>q\<rfloor> < m + 1" by (simp only: floor_less_iff)
  from 1 2 consider "\<lfloor>q\<rfloor> = m" | "\<lfloor>q\<rfloor> = m - 1" by linarith
  then show ?thesis
  proof cases
    case 1
    then show ?thesis using hi by (simp add: round_half_even_def Let_def)
  next
    case 2
    then show ?thesis using lo by (simp add: round_half_even_def Let_def)
  qed
qed

lemma two_powi_pos [simp]: "0 < (2::rat) powi k"
  by (simp add: zero_less_power_int)

lemma two_powi_less_imp: "(2::rat) powi a < 2 powi b \<Longrightarrow> a < b"
proof (rule ccontr)
  assume "(2::rat) powi a < 2 powi b" and "\<not> a < b"
  then have "b \<le> a" by simp
  then have "(2::rat) powi b \<le> 2 powi a" by (intro power_int_increasing) simp_all
  with \<open>(2::rat) powi a < 2 powi b\<close> show False by simp
qed

lemma bitlen_powi_bounds:
  assumes "0 < n"
  shows "(2::rat) powi (bitlen n - 1) \<le> of_int n" and "of_int n < (2::rat) powi bitlen n"
proof -
  from bitlen_bounds [OF assms]
  have lo: "2 ^ nat (bitlen n - 1) \<le> n" and hi: "n < 2 ^ nat (bitlen n)" by simp_all
  have pos: "0 < bitlen n"
  proof (rule ccontr)
    assume "\<not> 0 < bitlen n"
    then have "nat (bitlen n) = 0" by simp
    with hi have "n < 1" by simp
    with assms show False by simp
  qed
  have "(2::rat) powi (bitlen n - 1) = of_int (2 ^ nat (bitlen n - 1))"
    using pos by (simp add: power_int_def)
  also have "\<dots> \<le> of_int n" using lo by (simp only: of_int_le_iff)
  finally show "(2::rat) powi (bitlen n - 1) \<le> of_int n" .
  have "(of_int n :: rat) < of_int (2 ^ nat (bitlen n))" using hi by (simp only: of_int_less_iff)
  also have "\<dots> = (2::rat) powi bitlen n"
    using pos by (simp add: power_int_def)
  finally show "of_int n < (2::rat) powi bitlen n" .
qed

lemma floor_log2_bounds:
  assumes "0 < q"
  shows "2 powi floor_log2 q \<le> q" and "q < 2 powi (floor_log2 q + 1)"
proof -
  obtain n d where nd: "quotient_of q = (n, d)" by (cases "quotient_of q")
  then have d: "0 < d" and q: "q = of_int n / of_int d"
    by (simp_all add: quotient_of_denom_pos quotient_of_div)
  have n: "0 < n"
    using assms d q by (simp add: zero_less_divide_iff)
  let ?k = "bitlen n - bitlen d"
  have dr: "(0::rat) < of_int d" using d by simp
  have "q < 2 powi bitlen n / 2 powi (bitlen d - 1)"
  proof -
    have "q < (2::rat) powi bitlen n / of_int d"
      unfolding q using bitlen_powi_bounds(2) [OF n] dr by (simp add: divide_strict_right_mono)
    also have "\<dots> \<le> 2 powi bitlen n / 2 powi (bitlen d - 1)"
      using bitlen_powi_bounds(1) [OF d] dr by (intro divide_left_mono mult_pos_pos) simp_all
    finally show ?thesis .
  qed
  then have up: "q < 2 powi (?k + 1)"
    by (simp add: power_int_diff [symmetric] algebra_simps)
  have "2 powi (bitlen n - 1) / 2 powi bitlen d < q"
  proof -
    have "(2::rat) powi (bitlen n - 1) / 2 powi bitlen d < 2 powi (bitlen n - 1) / of_int d"
      using bitlen_powi_bounds(2) [OF d] dr by (intro divide_strict_left_mono mult_pos_pos) simp_all
    also have "\<dots> \<le> q"
      unfolding q using bitlen_powi_bounds(1) [OF n] dr by (simp add: divide_right_mono)
    finally show ?thesis .
  qed
  then have low: "2 powi (?k - 1) < q"
    by (simp add: power_int_diff [symmetric] algebra_simps)
  show "2 powi floor_log2 q \<le> q"
    using low by (simp add: floor_log2_def nd Let_def)
  show "q < 2 powi (floor_log2 q + 1)"
    using up by (simp add: floor_log2_def nd Let_def)
qed

lemma floor_log2_eqI:
  assumes "2 powi e \<le> q" "q < 2 powi (e + 1)"
  shows "floor_log2 q = e"
proof -
  have "0 < (2::rat) powi e" by simp
  with assms(1) have pos: "0 < q" by linarith
  from floor_log2_bounds [OF pos] assms
  have "(2::rat) powi floor_log2 q < 2 powi (e + 1)" "(2::rat) powi e < 2 powi (floor_log2 q + 1)"
    by linarith+
  then have "floor_log2 q < e + 1" "e < floor_log2 q + 1"
    by (auto dest: two_powi_less_imp)
  then show ?thesis by simp
qed

lemma binary64_eqI:
  assumes "2 powi e \<le> q" "q < 2 powi (e + 1)"
    and "\<bar>q / 2 powi (e - 52) - of_int m\<bar> < 1 / 2"
  shows "binary64 q = of_int m * 2 powi (e - 52)"
proof -
  have "0 < (2::rat) powi e" by simp
  with assms(1) have pos: "0 < q" by linarith
  have "floor_log2 q = e" using assms(1,2) by (rule floor_log2_eqI)
  moreover have "round_half_even (q / 2 powi (e - 52)) = m"
    using assms(3) by (rule round_half_even_eqI)
  ultimately show ?thesis
    using pos by (simp add: binary64_def Let_def)
qed

lemma binary64_err:
  assumes "0 \<le> q"
  shows "\<bar>binary64 q - q\<bar> \<le> q / 2 ^ 53"
proof (cases "q = 0")
  case True
  then show ?thesis by (simp add: binary64_def)
next
  case False
  with assms have pos: "0 < q" by simp
  let ?e = "floor_log2 q"
  let ?u = "(2::rat) powi (?e - 52)"
  have u: "0 < ?u" by simp
  have b: "binary64 q = of_int (round_half_even (q / ?u)) * ?u"
    using pos by (simp add: binary64_def Let_def)
  have "\<bar>binary64 q - q\<bar> = \<bar>of_int (round_half_even (q / ?u)) - q / ?u\<bar> * ?u"
  proof -
    have "binary64 q - q = (of_int (round_half_even (q / ?u)) - q / ?u) * ?u"
      using u by (simp add: b algebra_simps)
    then show ?thesis using u by (simp add: abs_mult)
  qed
  also have "\<dots> \<le> 1 / 2 * ?u"
    using round_half_even_err [of "q / ?u"] u by (intro mult_right_mono) simp_all
  also have "\<dots> = 2 powi ?e / 2 ^ 53"
    by (simp add: power_int_diff)
  also have "\<dots> \<le> q / 2 ^ 53"
    using floor_log2_bounds(1) [OF pos] by (simp add: divide_right_mono)
  finally show ?thesis .
qed




lemma binary64_6667:
  "binary64 (6667 / 100) = 4691484174324859 / 70368744177664"
proof -
  have "binary64 (6667 / 100) = of_int 4691484174324859 * 2 powi (6 - 52)"
    by (rule binary64_eqI) (simp_all add: power_int_minus)
  also have "\<dots> = 4691484174324859 / 70368744177664"
    by (simp add: power_int_minus)
  finally show ?thesis .
qed

lemma percentage_two_thirds:
  "py_round (float_mul (truediv 2 3) 100) 2 = binary64 (6667 / 100)"
proof -
  have "binary64 (2 / 3) = of_int 6004799503160661 * 2 powi (-1 - 52)"
    by (rule binary64_eqI) (simp_all add: power_int_minus)
  also have "\<dots> = 6004799503160661 / 9007199254740992"
    by (simp add: power_int_minus)
  finally have 1: "binary64 (2 / 3) = 6004799503160661 / 9007199254740992" .
  have "binary64 (6004799503160661 / 9007199254740992 * 100) = of_int 4691249611844266 * 2 powi (6 - 52)"
    by (rule binary64_eqI) (simp_all add: power_int_minus)
  also have "\<dots> = 2345624805922133 / 35184372088832"
    by (simp add: power_int_minus)
  finally have 2: "binary64 (6004799503160661 / 9007199254740992 * 100) = 2345624805922133 / 35184372088832" .
  have 3: "round_half_even (2345624805922133 / 35184372088832 * 10 ^ 2) = 6667"
    by (rule round_half_even_eqI) simp
  have "truediv 2 3 = binary64 (2 / 3)"
    by (simp add: truediv_def)
  then have t: "truediv 2 3 = 6004799503160661 / 9007199254740992"
    by (simp only: 1)
  have m: "float_mul (6004799503160661 / 9007199254740992) 100 = 2345624805922133 / 35184372088832"
    by (simp only: float_mul_def 2)
  have "py_round (2345624805922133 / 35184372088832) 2 = binary64 (of_int 6667 / 10 ^ 2)"
    by (simp only: py_round_def 3)
  also have "\<dots> = binary64 (6667 / 100)"
    by simp
  finally have r: "py_round (2345624805922133 / 35184372088832) 2 = binary64 (6667 / 100)" .
  show ?thesis
    by (simp only: t m r)
qed

lemma binary64_3333:
  "binary64 (3333 / 100) = 2345390243441541 / 70368744177664"
proof -
  have "binary64 (3333 / 100) = of_int 4690780486883082 * 2 powi (5 - 52)"
    by (rule binary64_eqI) (simp_all add: power_int_minus)
  also have "\<dots> = 2345390243441541 / 70368744177664"
    by (simp add: power_int_minus)
  finally show ?thesis .
qed

lemma percentage_one_third:
  "py_round (float_mul (truediv 1 3) 100) 2 = binary64 (3333 / 100)"
proof -
  have "binary64 (1 / 3) = of_int 6004799503160661 * 2 powi (-2 - 52)"
    by (rule binary64_eqI) (simp_all add: power_int_minus)
  also have "\<dots> = 6004799503160661 / 18014398509481984"
    by (simp add: power_int_minus)
  finally have 1: "binary64 (1 / 3) = 6004799503160661 / 18014398509481984" .
  have "binary64 (6004799503160661 / 18014398509481984 * 100) = of_int 4691249611844266 * 2 powi (5 - 52)"
    by (rule binary64_eqI) (simp_all add: power_int_minus)
  also have "\<dots> = 2345624805922133 / 70368744177664"
    by (simp add: power_int_minus)
  finally have 2: "binary64 (6004799503160661 / 18014398509481984 * 100) = 2345624805922133 / 70368744177664" .
  have 3: "round_half_even (2345624805922133 / 70368744177664 * 10 ^ 2) = 3333"
    by (rule round_half_even_eqI) simp
  have "truediv 1 3 = binary64 (1 / 3)"
    by (simp add: truediv_def)
  then have t: "truediv 1 3 = 6004799503160661 / 18014398509481984"
    by (simp only: 1)
  have m: "float_mul (6004799503160661 / 18014398509481984) 100 = 2345624805922133 / 70368744177664"
    by (simp only: float_mul_def 2)
  have "py_round (2345624805922133 / 70368744177664) 2 = binary64 (of_int 3333 / 10 ^ 2)"
    by (simp only: py_round_def 3)
  also have "\<dots> = binary64 (3333 / 100)"
    by simp
  finally have r: "py_round (2345624805922133 / 70368744177664) 2 = binary64 (3333 / 100)" .
  show ?thesis
    by (simp only: t m r)
qed



section \<open>Properties of the results\<close>

lemma get_results_rows:
  "res_options (get_results d now self) =
     map (\<lambda>option. \<lparr>r_id = r_id option, r_text = r_text option, vote_count = vote_count option,
            percentage =
              (if total_votes (get_results d now self) > 0
               then py_round (float_mul (truediv (vote_count option)
                      (total_votes (get_results d now self))) 100) 2
               else 0)\<rparr>)
       (order_by_vote_count_desc (annotate_vote_count d (poll_options d self)))"
  by (simp only: get_results_def Let_def results.select_convs)

lemma get_results_total:
  "total_votes (get_results d now self) =
     sum_list (map vote_count (order_by_vote_count_desc (annotate_vote_count d (poll_options d self))))"
  by (simp only: get_results_def Let_def results.select_convs)

lemma vote_count_rows:
  "map vote_count (res_options (get_results d now self)) =
     map vote_count (order_by_vote_count_desc (annotate_vote_count d (poll_options d self)))"
  by (simp add: get_results_rows o_def)

lemma scenario_rows:
  "order_by_vote_count_desc (annotate_vote_count scenario_db (poll_options scenario_db ex_poll)) =
     [\<lparr>r_id = 1, r_text = ''A'', vote_count = 2\<rparr>, \<lparr>r_id = 2, r_text = ''B'', vote_count = 1\<rparr>]"
  by (simp add: order_by_vote_count_desc_def annotate_vote_count_def poll_options_def
      count_votes_def scenario_db_def ex_db_def ex_options_def ex_poll_def new_vote_def)

lemma scenario_results:
  "total_votes (get_results scenario_db 0 ex_poll) = 3"
  "res_options (get_results scenario_db 0 ex_poll) =
     [\<lparr>r_id = 1, r_text = ''A'', vote_count = 2, percentage = binary64 (6667 / 100)\<rparr>,
      \<lparr>r_id = 2, r_text = ''B'', vote_count = 1, percentage = binary64 (3333 / 100)\<rparr>]"
proof -
  show t: "total_votes (get_results scenario_db 0 ex_poll) = 3"
    by (simp add: get_results_total scenario_rows)
  have "res_options (get_results scenario_db 0 ex_poll) =
     [\<lparr>r_id = 1, r_text = ''A'', vote_count = 2,
        percentage = py_round (float_mul (truediv 2 3) 100) 2\<rparr>,
      \<lparr>r_id = 2, r_text = ''B'', vote_count = 1,
        percentage = py_round (float_mul (truediv 1 3) 100) 2\<rparr>]"
    unfolding get_results_rows t scenario_rows by simp
  then show "res_options (get_results scenario_db 0 ex_poll) =
     [\<lparr>r_id = 1, r_text = ''A'', vote_count = 2, percentage = binary64 (6667 / 100)\<rparr>,
      \<lparr>r_id = 2, r_text = ''B'', vote_count = 1, percentage = binary64 (3333 / 100)\<rparr>]"
    by (simp only: percentage_two_thirds percentage_one_third)
qed

text \<open>
  Claim C4. The result has one row for each option of the poll, with the number of
  vote rows of that option as its count; the total is the sum of the counts; the
  percentage of a row is \<open>round(count / total * 100, 2)\<close> in Python's arithmetic when
  the total is positive, and 0 when it is 0. For the poll with two votes for A and one
  for B the total is 3 and the rows are A, B in this order, with the floats that
  Python writes as 66.67 and 33.33 (they differ from these decimals by less than
  \<open>10\<^sup>-\<^sup>1\<^sup>2\<close>).
\<close>

theorem get_results_counts_and_percentages:
  "mset (map (\<lambda>r. (r_id r, r_text r, vote_count r)) (res_options (get_results d now self)))
     = mset (map (\<lambda>opt. (option_id opt, option_text opt, count_votes d (option_id opt)))
          (poll_options d self))
   \<and> total_votes (get_results d now self)
     = sum_list (map vote_count (res_options (get_results d now self)))
   \<and> list_all (\<lambda>r. percentage r =
        (if total_votes (get_results d now self) > 0
         then py_round (float_mul (truediv (vote_count r)
                (total_votes (get_results d now self))) 100) 2
         else 0)) (res_options (get_results d now self))
   \<and> total_votes (get_results scenario_db 0 ex_poll) = 3
   \<and> res_options (get_results scenario_db 0 ex_poll) =
       [\<lparr>r_id = 1, r_text = ''A'', vote_count = 2, percentage = binary64 (6667 / 100)\<rparr>,
        \<lparr>r_id = 2, r_text = ''B'', vote_count = 1, percentage = binary64 (3333 / 100)\<rparr>]
   \<and> \<bar>binary64 (6667 / 100) - 6667 / 100\<bar> < 1 / 10 ^ 12
   \<and> \<bar>binary64 (3333 / 100) - 3333 / 100\<bar> < 1 / 10 ^ 12"
proof (intro conjI)
  have "mset (map (\<lambda>r. (r_id r, r_text r, vote_count r)) (res_options (get_results d now self)))
      = image_mset (\<lambda>r. (r_id r, r_text r, vote_count r))
          (mset (order_by_vote_count_desc (annotate_vote_count d (poll_options d self))))"
    by (simp add: get_results_rows o_def)
  also have "\<dots> = image_mset (\<lambda>r. (r_id r, r_text r, vote_count r))
          (mset (annotate_vote_count d (poll_options d self)))"
    by (simp add: order_by_vote_count_desc_def)
  also have "\<dots> = mset (map (\<lambda>opt. (option_id opt, option_text opt, count_votes d (option_id opt)))
          (poll_options d self))"
    by (simp add: annotate_vote_count_def multiset.map_comp o_def)
  finally show "mset (map (\<lambda>r. (r_id r, r_text r, vote_count r)) (res_options (get_results d now self)))
     = mset (map (\<lambda>opt. (option_id opt, option_text opt, count_votes d (option_id opt)))
          (poll_options d self))" .
  show "total_votes (get_results d now self)
     = sum_list (map vote_count (res_options (get_results d now self)))"
    by (simp only: vote_count_rows get_results_total)
  show "list_all (\<lambda>r. percentage r =
        (if total_votes (get_results d now self) > 0
         then py_round (float_mul (truediv (vote_count r)
                (total_votes (get_results d now self))) 100) 2
         else 0)) (res_options (get_results d now self))"
    unfolding get_results_rows [of d now self] by (simp add: list_all_iff)
  show "total_votes (get_results scenario_db 0 ex_poll) = 3"
    by (rule scenario_results)
  show "res_options (get_results scenario_db 0 ex_poll) =
       [\<lparr>r_id = 1, r_text = ''A'', vote_count = 2, percentage = binary64 (6667 / 100)\<rparr>,
        \<lparr>r_id = 2, r_text = ''B'', vote_count = 1, percentage = binary64 (3333 / 100)\<rparr>]"
    by (rule scenario_results)
  show "\<bar>binary64 (6667 / 100) - 6667 / 100\<bar> < 1 / 10 ^ 12"
    using binary64_err [of "6667 / 100"] by simp
  show "\<bar>binary64 (3333 / 100) - 3333 / 100\<bar> < 1 / 10 ^ 12"
    using binary64_err [of "3333 / 100"] by simp
qed






text \<open>
  Claim C6, amended. The rows of a result are in the order of their counts, the
  largest first; rows with equal counts follow each other, and the display order of
  the options plays no part in the order of the rows.
\<close>

theorem results_ordered_by_count:
  "sorted_wrt (\<lambda>a b. vote_count a \<ge> vote_count b) (res_options (get_results d now self))"
proof -
  let ?rows = "order_by_vote_count_desc (annotate_vote_count d (poll_options d self))"
  have "sorted (map (\<lambda>r. - int (vote_count r)) ?rows)"
    by (simp add: order_by_vote_count_desc_def)
  then have "sorted_wrt (\<lambda>a b. vote_count a \<ge> vote_count b) ?rows"
    by (simp add: sorted_map)
  then show ?thesis
    by (simp add: get_results_rows sorted_wrt_map)
qed

text \<open>
  Two options without votes come out in the order of their rows in the option table,
  here with the display orders 2, 1; their counts are equal, not strictly descending.
\<close>

theorem tie_order_counterexample:
  "\<not> ordered_with_display_ties tie_db (res_options (get_results tie_db 0 ex_poll))"
  by (simp add: ordered_with_display_ties_def display_order_def get_option_def get_results_def
      Let_def order_by_vote_count_desc_def annotate_vote_count_def poll_options_def
      count_votes_def tie_db_def ex_poll_def)

end
